theory Spec2Isabelle
  imports Main
begin

section \<open>JavaScript values\<close>

text \<open>
  Request bodies arrive through \<^verbatim>\<open>express.json()\<close>, so submissions and RSVP payloads are
  JSON values; \<^verbatim>\<open>undefined\<close> is what a missing property reads as. Strings are sequences of
  characters with code points below 256; numbers are never computed with and are kept as
  integers. An object is the list of its own properties.
\<close>

datatype jsval =
    JUndefined
  | JNull
  | JBool bool
  | JNum int
  | JStr string
  | JArr "jsval list"
  | JObj "(string \<times> jsval) list"

datatype exn = TypeError | Exn string

datatype 'a outcome = Returns 'a | Throws exn

text \<open>ToBoolean, as used by \<^verbatim>\<open>if (solved)\<close>.\<close>

fun truthy :: "jsval \<Rightarrow> bool" where
  "truthy JUndefined = False"
| "truthy JNull = False"
| "truthy (JBool b) = b"
| "truthy (JNum n) = (n \<noteq> 0)"
| "truthy (JStr s) = (s \<noteq> [])"
| "truthy (JArr xs) = True"
| "truthy (JObj kvs) = True"

text \<open>
  The property read \<^verbatim>\<open>v.k\<close> for a name \<^verbatim>\<open>k\<close> that no prototype defines: it throws on
  \<^verbatim>\<open>undefined\<close> and \<^verbatim>\<open>null\<close>, finds an own property of an object, and is \<^verbatim>\<open>undefined\<close>
  otherwise.
\<close>

fun get_prop :: "jsval \<Rightarrow> string \<Rightarrow> jsval outcome" where
  "get_prop JUndefined k = Throws TypeError"
| "get_prop JNull k = Throws TypeError"
| "get_prop (JObj kvs) k = Returns (case map_of kvs k of None \<Rightarrow> JUndefined | Some v \<Rightarrow> v)"
| "get_prop v k = Returns JUndefined"

subsection \<open>String.prototype.trim and toLowerCase\<close>

definition is_white_space :: "char \<Rightarrow> bool" where
  "is_white_space c = ((of_char c :: nat) \<in> {9, 10, 11, 12, 13, 32, 160})"

definition trim :: "string \<Rightarrow> string" where
  "trim s = rev (dropWhile is_white_space (rev (dropWhile is_white_space s)))"

definition lower_char :: "char \<Rightarrow> char" where
  "lower_char c =
     (let n = (of_char c :: nat)
      in if (65 \<le> n \<and> n \<le> 90) \<or> (192 \<le> n \<and> n \<le> 222 \<and> n \<noteq> 215)
         then char_of (n + 32) else c)"

definition toLowerCase :: "string \<Rightarrow> string" where
  "toLowerCase s = map lower_char s"

section \<open>The example verifier\<close>

text \<open>
  \<^verbatim>\<open>verifiers/dinner-party-march-2026.js\<close>:
  \<^verbatim>\<open>const normalized = submission.answer?.trim().toLowerCase();\<close>
  \<^verbatim>\<open>return normalized === "the stars align at midnight";\<close>
  The optional chain stops at a nullish \<^verbatim>\<open>answer\<close>; on any other value that is not a
  string, \<^verbatim>\<open>trim\<close> is not a function and the call throws.
\<close>

definition verify :: "jsval \<Rightarrow> jsval outcome" where
  "verify submission =
     (case get_prop submission ''answer'' of
        Throws e \<Rightarrow> Throws e
      | Returns answer \<Rightarrow>
          (case answer of
             JUndefined \<Rightarrow> Returns (JBool False)
           | JNull \<Rightarrow> Returns (JBool False)
           | JStr s \<Rightarrow> Returns (JBool (toLowerCase (trim s) = ''the stars align at midnight''))
           | _ \<Rightarrow> Throws TypeError))"

section \<open>The verifier registry\<close>

text \<open>
  \<^verbatim>\<open>verifiers[slug]\<close> reads a property of a plain object: the result is a registered
  function, nothing (\<^verbatim>\<open>undefined\<close>, which \<^verbatim>\<open>!verifier\<close> catches), or, for a name the object
  inherits, whatever the prototype holds. The registry is the function from slug to what the
  read yields.
\<close>

type_synonym verifier = "jsval \<Rightarrow> jsval outcome"

datatype regval = NoEntry | Callable verifier | NotCallable

type_synonym registry = "string \<Rightarrow> regval"

text \<open>
  \<^verbatim>\<open>verifiers/index.js\<close>: one own property; every other name is read from the prototype,
  which is a parameter here.
\<close>

definition verifiers :: "registry \<Rightarrow> registry" where
  "verifiers inherited slug =
     (if slug = ''dinner-party-march-2026'' then Callable verify else inherited slug)"

section \<open>The invite store\<close>

text \<open>
  One row of the \<^verbatim>\<open>invites\<close> table; a \<^verbatim>\<open>NULL\<close> column is \<open>None\<close>. \<open>puzzle_solved\<close> is
  the \<^verbatim>\<open>INTEGER DEFAULT 0\<close> column, which the handlers read for its truth value; the
  JSON text of \<open>rsvp_data\<close> is kept as the value it encodes; times are clock readings.
\<close>

record invite =
  token :: string
  event_slug :: string
  guest_name :: string
  puzzle_solved :: int
  rsvp_status :: "string option"
  rsvp_data :: "jsval option"
  created_at :: nat
  solved_at :: "nat option"
  rsvp_at :: "nat option"

type_synonym store = "invite list"

datatype store_error = InviteNotFound

text \<open>
  Modelled from the spec: \<^verbatim>\<open>db.getInvite\<close> (server/db.js is not written yet).
  \<^verbatim>\<open>get(token)\<close> returns the invite or nothing.
\<close>

definition getInvite :: "store \<Rightarrow> string \<Rightarrow> invite option" where
  "getInvite db t = find (\<lambda>r. token r = t) db"

text \<open>
  Modelled from the spec: \<^verbatim>\<open>db.markSolved\<close> (server/db.js is not written yet). It sets
  \<^verbatim>\<open>puzzle_solved = true\<close> and \<^verbatim>\<open>solved_at = now\<close> only if not already solved and is a
  no-op otherwise.
\<close>

definition markSolved :: "nat \<Rightarrow> store \<Rightarrow> string \<Rightarrow> store" where
  "markSolved now db t =
     map (\<lambda>r. if token r = t \<and> puzzle_solved r = 0
              then r\<lparr>puzzle_solved := 1, solved_at := Some now\<rparr> else r) db"

text \<open>
  Modelled from the spec: \<^verbatim>\<open>db.upsertRsvp\<close> (server/db.js is not written yet). It overwrites
  \<^verbatim>\<open>rsvp_data\<close>, sets \<^verbatim>\<open>rsvp_status\<close> (derived from the payload or defaulted: the
  derivation \<open>status_of\<close> is a parameter) and \<^verbatim>\<open>rsvp_at = now\<close>, fails with
  \<^verbatim>\<open>InviteNotFound\<close> on an unknown token, and does not look at \<^verbatim>\<open>puzzle_solved\<close>.
\<close>

definition upsertRsvp ::
  "(jsval \<Rightarrow> string option) \<Rightarrow> nat \<Rightarrow> store \<Rightarrow> string \<Rightarrow> jsval \<Rightarrow> store_error + store" where
  "upsertRsvp status_of now db t payload =
     (case getInvite db t of
        None \<Rightarrow> Inl InviteNotFound
      | Some _ \<Rightarrow>
          Inr (map (\<lambda>r. if token r = t
                        then r\<lparr>rsvp_status := status_of payload,
                               rsvp_data := Some payload,
                               rsvp_at := Some now\<rparr>
                        else r) db))"

section \<open>The route handlers\<close>

text \<open>
  A handler either sends a response (status and the object given to \<^verbatim>\<open>res.json\<close>) or
  throws. Its result also carries the store it leaves behind and the arguments of the
  verifier calls it made.
\<close>

datatype reply = Reply nat jsval | Raised exn

record result =
  reply :: reply
  store :: store
  invoked :: "jsval list"

definition invalid_invite :: reply where
  "invalid_invite = Reply 404 (JObj [(''error'', JStr ''Invalid invite'')])"

definition unknown_event :: reply where
  "unknown_event = Reply 404 (JObj [(''error'', JStr ''Unknown event'')])"

definition not_yet_solved :: reply where
  "not_yet_solved = Reply 403 (JObj [(''error'', JStr ''Puzzle not yet solved'')])"

text \<open>
  \<^verbatim>\<open>app.post("/api/puzzle/:slug/verify", ...)\<close>, the handler behind the rate limiter.
  \<open>slug\<close> is \<^verbatim>\<open>req.params.slug\<close>; \<open>tok\<close> and \<open>submission\<close> are read from the body,
  the token being a string. \<open>now\<close> is the clock reading that \<open>markSolved\<close> would store.
  \<^verbatim>\<open>res.json\<close> without \<^verbatim>\<open>res.status\<close> answers 200.
\<close>

definition attemptSolve :: "registry \<Rightarrow> nat \<Rightarrow> store \<Rightarrow> string \<Rightarrow> string \<Rightarrow> jsval \<Rightarrow> result" where
  "attemptSolve reg now db slug tok submission =
     (case getInvite db tok of
        None \<Rightarrow> \<lparr>reply = invalid_invite, store = db, invoked = []\<rparr>
      | Some invite \<Rightarrow>
          if event_slug invite \<noteq> slug
          then \<lparr>reply = invalid_invite, store = db, invoked = []\<rparr>
          else if puzzle_solved invite \<noteq> 0
          then \<lparr>reply = Reply 200 (JObj [(''solved'', JBool True)]), store = db, invoked = []\<rparr>
          else
            (case reg slug of
               NoEntry \<Rightarrow> \<lparr>reply = unknown_event, store = db, invoked = []\<rparr>
             | NotCallable \<Rightarrow> \<lparr>reply = Raised TypeError, store = db, invoked = []\<rparr>
             | Callable verifier \<Rightarrow>
                 (case verifier submission of
                    Throws e \<Rightarrow> \<lparr>reply = Raised e, store = db, invoked = [submission]\<rparr>
                  | Returns solved \<Rightarrow>
                      \<lparr>reply = Reply 200 (JObj [(''solved'', solved)]),
                       store = (if truthy solved then markSolved now db tok else db),
                       invoked = [submission]\<rparr>)))"

text \<open>\<^verbatim>\<open>app.post("/api/rsvp/:token", ...)\<close>; the payload is \<^verbatim>\<open>req.body\<close>.\<close>

definition submitRsvp ::
  "(jsval \<Rightarrow> string option) \<Rightarrow> nat \<Rightarrow> store \<Rightarrow> string \<Rightarrow> jsval \<Rightarrow> result" where
  "submitRsvp status_of now db tok payload =
     (case getInvite db tok of
        None \<Rightarrow> \<lparr>reply = invalid_invite, store = db, invoked = []\<rparr>
      | Some invite \<Rightarrow>
          if puzzle_solved invite = 0
          then \<lparr>reply = not_yet_solved, store = db, invoked = []\<rparr>
          else
            (case upsertRsvp status_of now db (token invite) payload of
               Inl e \<Rightarrow> \<lparr>reply = Raised (Exn ''InviteNotFound''), store = db, invoked = []\<rparr>
             | Inr db' \<Rightarrow>
                 \<lparr>reply = Reply 200 (JObj [(''success'', JBool True)]), store = db', invoked = []\<rparr>))"

text \<open>\<^verbatim>\<open>app.get("/api/invite/:token", ...)\<close>.\<close>

definition getInviteState :: "store \<Rightarrow> string \<Rightarrow> result" where
  "getInviteState db tok =
     (case getInvite db tok of
        None \<Rightarrow> \<lparr>reply = invalid_invite, store = db, invoked = []\<rparr>
      | Some invite \<Rightarrow>
          \<lparr>reply = Reply 200 (JObj
              [(''guest_name'', JStr (guest_name invite)),
               (''event_slug'', JStr (event_slug invite)),
               (''puzzle_solved'', JBool (puzzle_solved invite \<noteq> 0)),
               (''has_rsvp'', JBool (rsvp_status invite \<noteq> None))]),
           store = db, invoked = []\<rparr>)"

text \<open>
  The three guest-facing operations as requests, and the server handling a sequence of them
  one after the other, each at its own clock reading.
\<close>

datatype request =
    PuzzleVerify string string jsval
  | RsvpSubmit string jsval
  | InviteGet string

fun handle :: "registry \<Rightarrow> (jsval \<Rightarrow> string option) \<Rightarrow> nat \<Rightarrow> store \<Rightarrow> request \<Rightarrow> result" where
  "handle reg status_of now db (PuzzleVerify slug tok submission) =
     attemptSolve reg now db slug tok submission"
| "handle reg status_of now db (RsvpSubmit tok payload) = submitRsvp status_of now db tok payload"
| "handle reg status_of now db (InviteGet tok) = getInviteState db tok"

fun run :: "registry \<Rightarrow> (jsval \<Rightarrow> string option) \<Rightarrow> store \<Rightarrow> (nat \<times> request) list \<Rightarrow> store" where
  "run reg status_of db [] = db"
| "run reg status_of db ((now, rq) # rest) =
     run reg status_of (store (handle reg status_of now db rq)) rest"

section \<open>The implemented server\<close>

text \<open>
  \<^verbatim>\<open>Date.prototype.toISOString\<close> on a time value (milliseconds since the epoch, UTC):
  \<^verbatim>\<open>YYYY-MM-DDTHH:mm:ss.sssZ\<close>, the year written with a sign and six digits outside
  0 to 9999. The civil date of a day number is computed era by era (400 years of 146097
  days, years counted from March).
\<close>

fun digits :: "nat \<Rightarrow> int \<Rightarrow> string" where
  "digits 0 n = []"
| "digits (Suc w) n = digits w (n div 10) @ [char_of (48 + n mod 10)]"

definition civil_from_days :: "int \<Rightarrow> int \<times> int \<times> int" where
  "civil_from_days days =
     (let z = days + 719468;
          era = z div 146097;
          doe = z - era * 146097;
          yoe = (doe - doe div 1460 + doe div 36524 - doe div 146096) div 365;
          doy = doe - (365 * yoe + yoe div 4 - yoe div 100);
          mp = (5 * doy + 2) div 153;
          d = doy - (153 * mp + 2) div 5 + 1;
          m = (if mp < 10 then mp + 3 else mp - 9);
          y = yoe + era * 400 + (if m \<le> 2 then 1 else 0)
      in (y, m, d))"

definition year_digits :: "int \<Rightarrow> string" where
  "year_digits y =
     (if 0 \<le> y \<and> y \<le> 9999 then digits 4 y
      else (if y < 0 then ''-'' else ''+'') @ digits 6 \<bar>y\<bar>)"

definition toISOString :: "int \<Rightarrow> string" where
  "toISOString tv =
     (let (y, m, d) = civil_from_days (tv div 86400000);
          ms = tv mod 86400000
      in year_digits y @ ''-'' @ digits 2 m @ ''-'' @ digits 2 d @ ''T''
         @ digits 2 (ms div 3600000) @ '':''
         @ digits 2 (ms div 60000 mod 60) @ '':''
         @ digits 2 (ms div 1000 mod 60) @ ''.''
         @ digits 3 (ms mod 1000) @ ''Z'')"

record http_request =
  req_method :: string
  req_path :: string
  req_body :: jsval

text \<open>
  \<^verbatim>\<open>server/index.js\<close>, \<^verbatim>\<open>app.get("/api/health", (_req, res) => ...)\<close>; \<open>now\<close> is the time
  value of \<^verbatim>\<open>new Date()\<close>.
\<close>

definition health :: "http_request \<Rightarrow> int \<Rightarrow> reply" where
  "health req now =
     Reply 200 (JObj [(''status'', JStr ''ok''), (''timestamp'', JStr (toISOString now))])"

text \<open>
  What \<^verbatim>\<open>server/index.js\<close> registers, in its order: the health check and, in production
  only, the static files of \<^verbatim>\<open>dist\<close> and the catch-all that sends \<^verbatim>\<open>dist/index.html\<close>.
  \<open>dist\<close> maps a path to the file there, if any.
\<close>

datatype endpoint = HealthCheck | StaticAssets | IndexHtml

definition endpoints :: "bool \<Rightarrow> endpoint list" where
  "endpoints production = HealthCheck # (if production then [StaticAssets, IndexHtml] else [])"

datatype served = Json reply | File "string option"

fun respond :: "(string \<Rightarrow> string option) \<Rightarrow> int \<Rightarrow> endpoint \<Rightarrow> http_request \<Rightarrow> served" where
  "respond dist now HealthCheck req = Json (health req now)"
| "respond dist now StaticAssets req = File (dist (req_path req))"
| "respond dist now IndexHtml req = File (dist ''index.html'')"

section \<open>Fixtures\<close>

text \<open>
  The invite of the spec's scenarios: token T1, bound to the dinner party, as created
  (unsolved, every optional column unset); and the same invite after a solve at time 7.
\<close>

definition invite_T1 :: invite where
  "invite_T1 =
     \<lparr>token = ''T1'', event_slug = ''dinner-party-march-2026'', guest_name = ''Claude & Dario'',
      puzzle_solved = 0, rsvp_status = None, rsvp_data = None,
      created_at = 0, solved_at = None, rsvp_at = None\<rparr>"

definition invite_T1_solved :: invite where
  "invite_T1_solved = invite_T1\<lparr>puzzle_solved := 1, solved_at := Some 7\<rparr>"

text \<open>A second invite, bound to an event that has no verifier module.\<close>

definition invite_T2 :: invite where
  "invite_T2 =
     \<lparr>token = ''T2'', event_slug = ''scavenger-hunt-july-2026'', guest_name = ''Dario'',
      puzzle_solved = 0, rsvp_status = None, rsvp_data = None,
      created_at = 1, solved_at = None, rsvp_at = None\<rparr>"

text \<open>The registry of \<^verbatim>\<open>verifiers/index.js\<close> when no inherited name is asked for.\<close>

definition no_inherited :: registry where
  "no_inherited slug = NoEntry"

text \<open>A status derivation for the examples: accepted unless the payload says otherwise.\<close>

definition status_by_attending :: "jsval \<Rightarrow> string option" where
  "status_by_attending payload =
     (if get_prop payload ''attending'' = Returns (JStr ''No'')
      then Some ''declined'' else Some ''accepted'')"

section \<open>Store lemmas\<close>

lemma find_map_token:
  assumes "\<And>r. token (f r) = token r"
  shows "find (\<lambda>r. token r = t) (map f db) = map_option f (find (\<lambda>r. token r = t) db)"
  using assms by (induction db) auto

lemma getInvite_markSolved:
  "getInvite (markSolved now db t') t =
     map_option (\<lambda>r. if token r = t' \<and> puzzle_solved r = 0
              then r\<lparr>puzzle_solved := 1, solved_at := Some now\<rparr> else r) (getInvite db t)"
  unfolding getInvite_def markSolved_def by (rule find_map_token) simp

lemma getInvite_token: "getInvite db t = Some i \<Longrightarrow> token i = t"
  unfolding getInvite_def by (auto simp: find_Some_iff)

lemma getInvite_upsert_map:
  "getInvite (map (\<lambda>r. if token r = t'
                        then r\<lparr>rsvp_status := s, rsvp_data := d, rsvp_at := a\<rparr>
                        else r) db) t =
   map_option (\<lambda>r. if token r = t'
                        then r\<lparr>rsvp_status := s, rsvp_data := d, rsvp_at := a\<rparr>
                        else r) (getInvite db t)"
  unfolding getInvite_def by (rule find_map_token) simp

text \<open>What one request does to the row of a token.\<close>

lemma attemptSolve_row:
  assumes "getInvite db t = Some i"
  shows "\<exists>i'. getInvite (store (attemptSolve reg now db slug tok s)) t = Some i'
           \<and> event_slug i' = event_slug i
           \<and> rsvp_status i' = rsvp_status i \<and> rsvp_data i' = rsvp_data i \<and> rsvp_at i' = rsvp_at i
           \<and> (puzzle_solved i \<noteq> 0 \<longrightarrow> i' = i)
           \<and> (puzzle_solved i = 0 \<longrightarrow> i' = i \<or> i' = i\<lparr>puzzle_solved := 1, solved_at := Some now\<rparr>)"
  using assms
  by (auto simp: attemptSolve_def getInvite_markSolved
           split: option.splits regval.splits outcome.splits)

lemma submitRsvp_row:
  assumes "getInvite db t = Some i"
  shows "\<exists>i'. getInvite (store (submitRsvp status_of now db tok p)) t = Some i'
           \<and> event_slug i' = event_slug i
           \<and> puzzle_solved i' = puzzle_solved i \<and> solved_at i' = solved_at i
           \<and> (puzzle_solved i = 0 \<longrightarrow> i' = i)"
proof (cases "getInvite db tok")
  case None
  with assms show ?thesis by (simp add: submitRsvp_def)
next
  case (Some j)
  have tj: "token j = tok" using Some by (rule getInvite_token)
  have ti: "token i = t" using assms by (rule getInvite_token)
  show ?thesis
  proof (cases "puzzle_solved j = 0")
    case True
    with Some assms show ?thesis by (simp add: submitRsvp_def)
  next
    case False
    show ?thesis
    proof (cases "t = tok")
      case True
      with Some assms have "i = j" by simp
      with False Some tj True show ?thesis
        by (simp add: submitRsvp_def upsertRsvp_def getInvite_upsert_map)
    next
      case neq: False
      with False Some assms tj ti show ?thesis
        by (simp add: submitRsvp_def upsertRsvp_def getInvite_upsert_map)
    qed
  qed
qed

lemma getInviteState_store: "store (getInviteState db tok) = db"
  by (simp add: getInviteState_def split: option.splits)

lemma handle_row:
  assumes "getInvite db t = Some i"
  shows "\<exists>i'. getInvite (store (handle reg status_of now db rq)) t = Some i'
           \<and> event_slug i' = event_slug i
           \<and> (puzzle_solved i \<noteq> 0 \<longrightarrow> puzzle_solved i' \<noteq> 0 \<and> solved_at i' = solved_at i)
           \<and> (puzzle_solved i = 0 \<longrightarrow>
                 rsvp_status i' = rsvp_status i \<and> rsvp_data i' = rsvp_data i \<and> rsvp_at i' = rsvp_at i)"
proof (cases rq)
  case (PuzzleVerify slug tok s)
  from attemptSolve_row[OF assms, of reg now slug tok s] show ?thesis
    unfolding PuzzleVerify by auto
next
  case (RsvpSubmit tok p)
  from submitRsvp_row[OF assms, of status_of now tok p] show ?thesis
    unfolding RsvpSubmit by auto
next
  case (InviteGet tok)
  with assms show ?thesis by (simp add: getInviteState_store)
qed

lemma run_latched:
  assumes "getInvite db t = Some i" and "puzzle_solved i \<noteq> 0"
  shows "\<exists>i'. getInvite (run reg status_of db reqs) t = Some i'
           \<and> event_slug i' = event_slug i \<and> puzzle_solved i' \<noteq> 0 \<and> solved_at i' = solved_at i"
  using assms
proof (induction reqs arbitrary: db i)
  case Nil
  then show ?case by simp
next
  case (Cons nr reqs)
  obtain now rq where nr: "nr = (now, rq)" by (cases nr)
  from handle_row[OF Cons.prems(1), of reg status_of now rq] Cons.prems(2)
  obtain j where j: "getInvite (store (handle reg status_of now db rq)) t = Some j"
    "event_slug j = event_slug i" "puzzle_solved j \<noteq> 0" "solved_at j = solved_at i"
    by auto
  from Cons.IH[OF j(1) j(3)] j(2,4) show ?case
    unfolding nr by auto
qed

section \<open>The puzzle gate: a rejected submission\<close>

text \<open>
  C3. For an unsolved invite addressed through its own event, a submission that the
  registered verifier rejects (it returns \<^verbatim>\<open>false\<close>) is answered with \<^verbatim>\<open>{solved: false}\<close>
  and the whole store, hence the invite with its \<open>puzzle_solved\<close> and \<open>solved_at\<close>, is
  exactly as before. Moreover every call, whatever its arguments, either leaves the store
  as it was or makes the single transition \<open>markSolved\<close> on its token, and the latter only
  when the invite was unsolved and the verifier accepted.
\<close>

theorem attemptSolve_rejected_unchanged:
  assumes "getInvite db tok = Some i" and "event_slug i = slug" and "puzzle_solved i = 0"
    and "reg slug = Callable f" and "f submission = Returns (JBool False)"
  shows "attemptSolve reg now db slug tok submission =
           \<lparr>reply = Reply 200 (JObj [(''solved'', JBool False)]), store = db,
            invoked = [submission]\<rparr>
         \<and> (\<forall>reg' now' db' slug' tok' s'.
               store (attemptSolve reg' now' db' slug' tok' s') = db'
               \<or> (store (attemptSolve reg' now' db' slug' tok' s') = markSolved now' db' tok'
                   \<and> (\<exists>j g v. getInvite db' tok' = Some j \<and> event_slug j = slug'
                          \<and> puzzle_solved j = 0 \<and> reg' slug' = Callable g
                          \<and> g s' = Returns v \<and> truthy v)))"
proof
  show "attemptSolve reg now db slug tok submission =
           \<lparr>reply = Reply 200 (JObj [(''solved'', JBool False)]), store = db,
            invoked = [submission]\<rparr>"
    using assms by (simp add: attemptSolve_def)
next
  show "\<forall>reg' now' db' slug' tok' s'.
               store (attemptSolve reg' now' db' slug' tok' s') = db'
               \<or> (store (attemptSolve reg' now' db' slug' tok' s') = markSolved now' db' tok'
                   \<and> (\<exists>j g v. getInvite db' tok' = Some j \<and> event_slug j = slug'
                          \<and> puzzle_solved j = 0 \<and> reg' slug' = Callable g
                          \<and> g s' = Returns v \<and> truthy v))"
    by (auto simp: attemptSolve_def split: option.splits regval.splits outcome.splits)
qed

theorem attemptSolve_rejected_unchanged_witness:
  "getInvite [invite_T1] ''T1'' = Some invite_T1
   \<and> event_slug invite_T1 = ''dinner-party-march-2026''
   \<and> puzzle_solved invite_T1 = 0
   \<and> verifiers no_inherited ''dinner-party-march-2026'' = Callable verify
   \<and> verify (JObj [(''answer'', JStr ''the moon'')]) = Returns (JBool False)
   \<and> attemptSolve (verifiers no_inherited) 5 [invite_T1] ''dinner-party-march-2026'' ''T1''
        (JObj [(''answer'', JStr ''the moon'')]) =
        \<lparr>reply = Reply 200 (JObj [(''solved'', JBool False)]), store = [invite_T1],
         invoked = [JObj [(''answer'', JStr ''the moon'')]]\<rparr>"
proof -
  have a: "getInvite [invite_T1] ''T1'' = Some invite_T1"
    by (simp add: getInvite_def invite_T1_def)
  have b: "event_slug invite_T1 = ''dinner-party-march-2026''"
    by (simp add: invite_T1_def)
  have c: "puzzle_solved invite_T1 = 0"
    by (simp add: invite_T1_def)
  have d: "verifiers no_inherited ''dinner-party-march-2026'' = Callable verify"
    by (simp add: verifiers_def)
  have e: "verify (JObj [(''answer'', JStr ''the moon'')]) = Returns (JBool False)"
    by code_simp
  from attemptSolve_rejected_unchanged
         [where reg = "verifiers no_inherited" and f = verify and now = 5
            and slug = "''dinner-party-march-2026''", OF a b c d e]
       a b c d e
  show ?thesis by simp
qed

section \<open>The puzzle gate: the latch\<close>

text \<open>
  C1. Once the invite of a token is solved, it is solved after every further sequence of
  requests (puzzle attempts, RSVP submissions and state reads, on any tokens, at any times)
  and its \<open>solved_at\<close> is the one it had; a puzzle attempt for that token through its own
  event, with any submission and any registry, is then answered \<^verbatim>\<open>{solved: true}\<close>, leaves
  the store alone and calls no verifier; through whatever slug it comes, an attempt for that
  token calls no verifier and changes nothing. The first accepted attempt on an unsolved
  invite is what sets \<open>puzzle_solved\<close> and \<open>solved_at\<close> (to the time of that attempt).
\<close>

theorem puzzle_solved_latch:
  assumes "getInvite db tok = Some i" and "puzzle_solved i \<noteq> 0"
  shows "(\<exists>i'. getInvite (run reg status_of db reqs) tok = Some i'
             \<and> puzzle_solved i' \<noteq> 0 \<and> solved_at i' = solved_at i)
         \<and> attemptSolve reg' now (run reg status_of db reqs) (event_slug i) tok submission =
             \<lparr>reply = Reply 200 (JObj [(''solved'', JBool True)]),
              store = run reg status_of db reqs, invoked = []\<rparr>
         \<and> (\<forall>slug. invoked (attemptSolve reg' now (run reg status_of db reqs) slug tok submission) = []
                  \<and> store (attemptSolve reg' now (run reg status_of db reqs) slug tok submission) =
                      run reg status_of db reqs)
         \<and> (\<forall>d j g v n s.
               getInvite d tok = Some j \<and> puzzle_solved j = 0
               \<and> reg (event_slug j) = Callable g \<and> g s = Returns v \<and> truthy v
               \<longrightarrow> getInvite (store (attemptSolve reg n d (event_slug j) tok s)) tok =
                     Some (j\<lparr>puzzle_solved := 1, solved_at := Some n\<rparr>))"
proof -
  from run_latched[OF assms, of reg status_of reqs]
  obtain i' where i': "getInvite (run reg status_of db reqs) tok = Some i'"
    "event_slug i' = event_slug i" "puzzle_solved i' \<noteq> 0" "solved_at i' = solved_at i"
    by auto
  have stays: "\<exists>i'. getInvite (run reg status_of db reqs) tok = Some i'
             \<and> puzzle_solved i' \<noteq> 0 \<and> solved_at i' = solved_at i"
    using i' by auto
  have again: "attemptSolve reg' now (run reg status_of db reqs) (event_slug i) tok submission =
             \<lparr>reply = Reply 200 (JObj [(''solved'', JBool True)]),
              store = run reg status_of db reqs, invoked = []\<rparr>"
    using i' by (simp add: attemptSolve_def)
  have first: "\<forall>d j g v n s.
               getInvite d tok = Some j \<and> puzzle_solved j = 0
               \<and> reg (event_slug j) = Callable g \<and> g s = Returns v \<and> truthy v
               \<longrightarrow> getInvite (store (attemptSolve reg n d (event_slug j) tok s)) tok =
                     Some (j\<lparr>puzzle_solved := 1, solved_at := Some n\<rparr>)"
    by (auto simp: attemptSolve_def getInvite_markSolved dest: getInvite_token)
  have quiet: "\<forall>slug. invoked (attemptSolve reg' now (run reg status_of db reqs) slug tok submission) = []
                  \<and> store (attemptSolve reg' now (run reg status_of db reqs) slug tok submission) =
                      run reg status_of db reqs"
    using i' by (simp add: attemptSolve_def)
  from stays again quiet first show ?thesis by blast
qed

theorem puzzle_solved_latch_witness:
  "getInvite [invite_T1_solved, invite_T2] ''T1'' = Some invite_T1_solved
   \<and> puzzle_solved invite_T1_solved \<noteq> 0
   \<and> (\<exists>i'. getInvite
              (run (verifiers no_inherited) status_by_attending [invite_T1_solved, invite_T2]
                 [(8, PuzzleVerify ''dinner-party-march-2026'' ''T1'' (JObj [(''answer'', JStr ''the moon'')])),
                  (9, RsvpSubmit ''T1'' (JObj [(''attending'', JStr ''No'')])),
                  (10, InviteGet ''T1''),
                  (11, PuzzleVerify ''scavenger-hunt-july-2026'' ''T2'' JNull)]) ''T1'' = Some i'
            \<and> puzzle_solved i' \<noteq> 0 \<and> solved_at i' = Some 7)
   \<and> reply (attemptSolve (\<lambda>slug. Callable (\<lambda>s. Throws (Exn ''never called''))) 12
        (run (verifiers no_inherited) status_by_attending [invite_T1_solved, invite_T2]
                 [(8, PuzzleVerify ''dinner-party-march-2026'' ''T1'' (JObj [(''answer'', JStr ''the moon'')])),
                  (9, RsvpSubmit ''T1'' (JObj [(''attending'', JStr ''No'')])),
                  (10, InviteGet ''T1''),
                  (11, PuzzleVerify ''scavenger-hunt-july-2026'' ''T2'' JNull)])
        ''dinner-party-march-2026'' ''T1'' (JObj [(''answer'', JStr ''the moon'')])) =
       Reply 200 (JObj [(''solved'', JBool True)])
   \<and> getInvite (store (attemptSolve (verifiers no_inherited) 7 [invite_T1, invite_T2]
         ''dinner-party-march-2026'' ''T1''
         (JObj [(''answer'', JStr '' The Stars Align at Midnight'')]))) ''T1'' =
       Some invite_T1_solved"
proof -
  have a: "getInvite [invite_T1_solved, invite_T2] ''T1'' = Some invite_T1_solved"
    by (simp add: getInvite_def invite_T1_solved_def invite_T1_def)
  have b: "puzzle_solved invite_T1_solved \<noteq> 0"
    by (simp add: invite_T1_solved_def)
  have c: "solved_at invite_T1_solved = Some 7"
    by (simp add: invite_T1_solved_def)
  have d: "event_slug invite_T1_solved = ''dinner-party-march-2026''"
    by (simp add: invite_T1_solved_def invite_T1_def)
  have good: "verify (JObj [(''answer'', JStr '' The Stars Align at Midnight'')]) =
                 Returns (JBool True)"
    by code_simp
  have e: "getInvite [invite_T1, invite_T2] ''T1'' = Some invite_T1
             \<and> puzzle_solved invite_T1 = 0
             \<and> verifiers no_inherited (event_slug invite_T1) = Callable verify
             \<and> verify (JObj [(''answer'', JStr '' The Stars Align at Midnight'')]) =
                 Returns (JBool True)
             \<and> truthy (JBool True)"
    using good by (simp add: getInvite_def invite_T1_def verifiers_def)
  note latch = puzzle_solved_latch
         [OF a b, where reg = "verifiers no_inherited" and status_of = status_by_attending
            and reg' = "\<lambda>slug. Callable (\<lambda>s. Throws (Exn ''never called''))" and now = 12
            and submission = "JObj [(''answer'', JStr ''the moon'')]"
            and reqs = "[(8, PuzzleVerify ''dinner-party-march-2026'' ''T1'' (JObj [(''answer'', JStr ''the moon'')])),
                  (9, RsvpSubmit ''T1'' (JObj [(''attending'', JStr ''No'')])),
                  (10, InviteGet ''T1''),
                  (11, PuzzleVerify ''scavenger-hunt-july-2026'' ''T2'' JNull)]"]
  from latch have l1: "\<exists>i'. getInvite
              (run (verifiers no_inherited) status_by_attending [invite_T1_solved, invite_T2]
                 [(8, PuzzleVerify ''dinner-party-march-2026'' ''T1'' (JObj [(''answer'', JStr ''the moon'')])),
                  (9, RsvpSubmit ''T1'' (JObj [(''attending'', JStr ''No'')])),
                  (10, InviteGet ''T1''),
                  (11, PuzzleVerify ''scavenger-hunt-july-2026'' ''T2'' JNull)]) ''T1'' = Some i'
            \<and> puzzle_solved i' \<noteq> 0 \<and> solved_at i' = Some 7"
    unfolding c by (rule conjunct1)
  from latch have l2: "reply (attemptSolve (\<lambda>slug. Callable (\<lambda>s. Throws (Exn ''never called''))) 12
        (run (verifiers no_inherited) status_by_attending [invite_T1_solved, invite_T2]
                 [(8, PuzzleVerify ''dinner-party-march-2026'' ''T1'' (JObj [(''answer'', JStr ''the moon'')])),
                  (9, RsvpSubmit ''T1'' (JObj [(''attending'', JStr ''No'')])),
                  (10, InviteGet ''T1''),
                  (11, PuzzleVerify ''scavenger-hunt-july-2026'' ''T2'' JNull)])
        ''dinner-party-march-2026'' ''T1'' (JObj [(''answer'', JStr ''the moon'')])) =
       Reply 200 (JObj [(''solved'', JBool True)])"
    unfolding d by simp
  from latch have "\<forall>d j g v n s.
               getInvite d ''T1'' = Some j \<and> puzzle_solved j = 0
               \<and> verifiers no_inherited (event_slug j) = Callable g \<and> g s = Returns v \<and> truthy v
               \<longrightarrow> getInvite (store (attemptSolve (verifiers no_inherited) n d (event_slug j) ''T1'' s)) ''T1'' =
                     Some (j\<lparr>puzzle_solved := 1, solved_at := Some n\<rparr>)"
    by (elim conjE)
  with e have l3: "getInvite (store (attemptSolve (verifiers no_inherited) 7 [invite_T1, invite_T2]
         (event_slug invite_T1) ''T1''
         (JObj [(''answer'', JStr '' The Stars Align at Midnight'')]))) ''T1'' =
       Some (invite_T1\<lparr>puzzle_solved := 1, solved_at := Some 7\<rparr>)"
    by blast
  have f: "event_slug invite_T1 = ''dinner-party-march-2026''"
    by (simp add: invite_T1_def)
  from a b l1 l2 l3 show ?thesis
    unfolding f invite_T1_solved_def [symmetric] by blast
qed

section \<open>The RSVP gate\<close>

text \<open>
  C2. An RSVP submission for a token that is not in the store is answered 404 (invalid
  invite); for a token whose invite is unsolved it is answered 403, whatever the payload;
  both leave the whole store as it was. For a solved invite it calls \<open>upsertRsvp\<close>, which
  succeeds, answers \<^verbatim>\<open>{success: true}\<close> and leaves the store that \<open>upsertRsvp\<close> returned.
  No request of any kind changes the RSVP columns of an invite that is unsolved when the
  request arrives.
\<close>

theorem submitRsvp_gate:
  "(getInvite db tok = None \<longrightarrow>
      submitRsvp status_of now db tok payload =
        \<lparr>reply = invalid_invite, store = db, invoked = []\<rparr>)
   \<and> (\<forall>i. getInvite db tok = Some i \<and> puzzle_solved i = 0 \<longrightarrow>
      submitRsvp status_of now db tok payload =
        \<lparr>reply = not_yet_solved, store = db, invoked = []\<rparr>)
   \<and> (\<forall>i. getInvite db tok = Some i \<and> puzzle_solved i \<noteq> 0 \<longrightarrow>
      (\<exists>db'. upsertRsvp status_of now db tok payload = Inr db'
         \<and> submitRsvp status_of now db tok payload =
             \<lparr>reply = Reply 200 (JObj [(''success'', JBool True)]), store = db', invoked = []\<rparr>))
   \<and> (\<forall>i reg rq. getInvite db tok = Some i \<and> puzzle_solved i = 0 \<longrightarrow>
      (\<exists>i'. getInvite (store (handle reg status_of now db rq)) tok = Some i'
         \<and> rsvp_status i' = rsvp_status i \<and> rsvp_data i' = rsvp_data i
         \<and> rsvp_at i' = rsvp_at i))"
proof (intro conjI allI impI)
  assume "getInvite db tok = None"
  then show "submitRsvp status_of now db tok payload =
        \<lparr>reply = invalid_invite, store = db, invoked = []\<rparr>"
    by (simp add: submitRsvp_def)
next
  fix i assume "getInvite db tok = Some i \<and> puzzle_solved i = 0"
  then show "submitRsvp status_of now db tok payload =
        \<lparr>reply = not_yet_solved, store = db, invoked = []\<rparr>"
    by (simp add: submitRsvp_def)
next
  fix i assume a: "getInvite db tok = Some i \<and> puzzle_solved i \<noteq> 0"
  then have "token i = tok" by (auto dest: getInvite_token)
  with a show "\<exists>db'. upsertRsvp status_of now db tok payload = Inr db'
         \<and> submitRsvp status_of now db tok payload =
             \<lparr>reply = Reply 200 (JObj [(''success'', JBool True)]), store = db', invoked = []\<rparr>"
    by (simp add: submitRsvp_def upsertRsvp_def)
next
  fix i reg rq assume a: "getInvite db tok = Some i \<and> puzzle_solved i = 0"
  then have g: "getInvite db tok = Some i" and u: "puzzle_solved i = 0" by simp_all
  from handle_row[OF g, of reg status_of now rq] u
  show "\<exists>i'. getInvite (store (handle reg status_of now db rq)) tok = Some i'
         \<and> rsvp_status i' = rsvp_status i \<and> rsvp_data i' = rsvp_data i
         \<and> rsvp_at i' = rsvp_at i"
    by auto
qed

theorem submitRsvp_gate_witness:
  "getInvite [invite_T1] ''T0'' = None
   \<and> submitRsvp status_by_attending 9 [invite_T1] ''T0'' (JObj [(''attending'', JStr ''Yes'')]) =
       \<lparr>reply = invalid_invite, store = [invite_T1], invoked = []\<rparr>
   \<and> getInvite [invite_T1] ''T1'' = Some invite_T1 \<and> puzzle_solved invite_T1 = 0
   \<and> submitRsvp status_by_attending 9 [invite_T1] ''T1'' (JObj [(''attending'', JStr ''Yes'')]) =
       \<lparr>reply = not_yet_solved, store = [invite_T1], invoked = []\<rparr>
   \<and> getInvite [invite_T1_solved] ''T1'' = Some invite_T1_solved
   \<and> puzzle_solved invite_T1_solved \<noteq> 0
   \<and> submitRsvp status_by_attending 9 [invite_T1_solved] ''T1''
        (JObj [(''attending'', JStr ''Yes'')]) =
       \<lparr>reply = Reply 200 (JObj [(''success'', JBool True)]),
        store = [invite_T1_solved\<lparr>rsvp_status := Some ''accepted'',
                   rsvp_data := Some (JObj [(''attending'', JStr ''Yes'')]),
                   rsvp_at := Some 9\<rparr>],
        invoked = []\<rparr>
   \<and> (\<exists>i'. getInvite (store (handle (verifiers no_inherited) status_by_attending 9 [invite_T1]
                (RsvpSubmit ''T1'' (JObj [(''attending'', JStr ''Yes'')])))) ''T1'' = Some i'
         \<and> rsvp_status i' = None \<and> rsvp_data i' = None \<and> rsvp_at i' = None)"
proof -
  have a: "getInvite [invite_T1] ''T0'' = None"
    by (simp add: getInvite_def invite_T1_def)
  have b: "getInvite [invite_T1] ''T1'' = Some invite_T1 \<and> puzzle_solved invite_T1 = 0"
    by (simp add: getInvite_def invite_T1_def)
  have c: "getInvite [invite_T1_solved] ''T1'' = Some invite_T1_solved
             \<and> puzzle_solved invite_T1_solved \<noteq> 0"
    by (simp add: getInvite_def invite_T1_def invite_T1_solved_def)
  have u: "upsertRsvp status_by_attending 9 [invite_T1_solved] ''T1''
             (JObj [(''attending'', JStr ''Yes'')]) =
           Inr [invite_T1_solved\<lparr>rsvp_status := Some ''accepted'',
                   rsvp_data := Some (JObj [(''attending'', JStr ''Yes'')]),
                   rsvp_at := Some 9\<rparr>]"
    by (simp add: upsertRsvp_def getInvite_def invite_T1_def invite_T1_solved_def
          status_by_attending_def)
  have r: "rsvp_status invite_T1 = None \<and> rsvp_data invite_T1 = None \<and> rsvp_at invite_T1 = None"
    by (simp add: invite_T1_def)
  note g1 = submitRsvp_gate [where db = "[invite_T1]" and tok = "''T0''"
              and status_of = status_by_attending and now = 9
              and payload = "JObj [(''attending'', JStr ''Yes'')]"]
  note g2 = submitRsvp_gate [where db = "[invite_T1]" and tok = "''T1''"
              and status_of = status_by_attending and now = 9
              and payload = "JObj [(''attending'', JStr ''Yes'')]"]
  note g3 = submitRsvp_gate [where db = "[invite_T1_solved]" and tok = "''T1''"
              and status_of = status_by_attending and now = 9
              and payload = "JObj [(''attending'', JStr ''Yes'')]"]
  from g1 a have w1: "submitRsvp status_by_attending 9 [invite_T1] ''T0''
         (JObj [(''attending'', JStr ''Yes'')]) =
       \<lparr>reply = invalid_invite, store = [invite_T1], invoked = []\<rparr>"
    by blast
  from g2 b have w2: "submitRsvp status_by_attending 9 [invite_T1] ''T1''
         (JObj [(''attending'', JStr ''Yes'')]) =
       \<lparr>reply = not_yet_solved, store = [invite_T1], invoked = []\<rparr>"
    by blast
  from g3 c obtain db' where
    "upsertRsvp status_by_attending 9 [invite_T1_solved] ''T1''
       (JObj [(''attending'', JStr ''Yes'')]) = Inr db'"
    "submitRsvp status_by_attending 9 [invite_T1_solved] ''T1''
        (JObj [(''attending'', JStr ''Yes'')]) =
       \<lparr>reply = Reply 200 (JObj [(''success'', JBool True)]), store = db', invoked = []\<rparr>"
    by blast
  with u have w3: "submitRsvp status_by_attending 9 [invite_T1_solved] ''T1''
        (JObj [(''attending'', JStr ''Yes'')]) =
       \<lparr>reply = Reply 200 (JObj [(''success'', JBool True)]),
        store = [invite_T1_solved\<lparr>rsvp_status := Some ''accepted'',
                   rsvp_data := Some (JObj [(''attending'', JStr ''Yes'')]),
                   rsvp_at := Some 9\<rparr>],
        invoked = []\<rparr>"
    by simp
  from g2 b have "\<exists>i'. getInvite (store (handle (verifiers no_inherited) status_by_attending 9
                [invite_T1] (RsvpSubmit ''T1'' (JObj [(''attending'', JStr ''Yes'')])))) ''T1''
                  = Some i'
         \<and> rsvp_status i' = rsvp_status invite_T1 \<and> rsvp_data i' = rsvp_data invite_T1
         \<and> rsvp_at i' = rsvp_at invite_T1"
    by blast
  with r have w4: "\<exists>i'. getInvite (store (handle (verifiers no_inherited) status_by_attending 9
                [invite_T1] (RsvpSubmit ''T1'' (JObj [(''attending'', JStr ''Yes'')])))) ''T1''
                  = Some i'
         \<and> rsvp_status i' = None \<and> rsvp_data i' = None \<and> rsvp_at i' = None"
    by simp
  from a b c w1 w2 w3 w4 show ?thesis by blast
qed

section \<open>The puzzle gate: unknown token and foreign event\<close>

text \<open>
  C4. A puzzle attempt with a token that is not in the store and a puzzle attempt with a
  token whose invite is bound to another event than the one in the request get the same
  response, 404 with \<^verbatim>\<open>{error: "Invalid invite"}\<close>, whatever the other arguments; in the
  second case the store is left as it was and no verifier is called.
\<close>

theorem attemptSolve_not_found_uniform:
  assumes "getInvite dba toka = None"
    and "getInvite dbb tokb = Some i" and "event_slug i \<noteq> slugb"
  shows "reply (attemptSolve rega nowa dba sluga toka sa) = invalid_invite
         \<and> reply (attemptSolve regb nowb dbb slugb tokb sb) =
             reply (attemptSolve rega nowa dba sluga toka sa)
         \<and> store (attemptSolve regb nowb dbb slugb tokb sb) = dbb
         \<and> invoked (attemptSolve regb nowb dbb slugb tokb sb) = []"
  using assms by (simp add: attemptSolve_def)

theorem attemptSolve_not_found_uniform_witness:
  "getInvite [invite_T1] ''T0'' = None
   \<and> getInvite [invite_T1] ''T1'' = Some invite_T1
   \<and> event_slug invite_T1 \<noteq> ''scavenger-hunt-july-2026''
   \<and> reply (attemptSolve (verifiers no_inherited) 5 [invite_T1] ''scavenger-hunt-july-2026''
        ''T0'' JNull) = Reply 404 (JObj [(''error'', JStr ''Invalid invite'')])
   \<and> reply (attemptSolve (verifiers no_inherited) 6 [invite_T1] ''scavenger-hunt-july-2026''
        ''T1'' (JObj [(''answer'', JStr ''the stars align at midnight'')])) =
       reply (attemptSolve (verifiers no_inherited) 5 [invite_T1] ''scavenger-hunt-july-2026''
        ''T0'' JNull)
   \<and> store (attemptSolve (verifiers no_inherited) 6 [invite_T1] ''scavenger-hunt-july-2026''
        ''T1'' (JObj [(''answer'', JStr ''the stars align at midnight'')])) = [invite_T1]"
proof -
  have a: "getInvite [invite_T1] ''T0'' = None"
    by (simp add: getInvite_def invite_T1_def)
  have b: "getInvite [invite_T1] ''T1'' = Some invite_T1"
    by (simp add: getInvite_def invite_T1_def)
  have c: "event_slug invite_T1 \<noteq> ''scavenger-hunt-july-2026''"
    by (simp add: invite_T1_def)
  from attemptSolve_not_found_uniform
         [OF a b c, where rega = "verifiers no_inherited" and regb = "verifiers no_inherited"
            and nowa = 5 and nowb = 6
            and sluga = "''scavenger-hunt-july-2026''" and sa = JNull
            and sb = "JObj [(''answer'', JStr ''the stars align at midnight'')]"]
       a b c
  show ?thesis by (simp add: invalid_invite_def)
qed

section \<open>RSVP overwrite\<close>

text \<open>
  C5. On a solved invite two RSVP submissions in a row both succeed. After the first the
  invite holds the first payload and the first time; after the second it holds exactly the
  second payload, the status derived from it and the second time, every other column being
  as it was before both. The store after both is the store that the second submission alone
  would have left: nothing of the first payload is merged in.
\<close>

theorem submitRsvp_overwrites:
  assumes "getInvite db tok = Some i" and "puzzle_solved i \<noteq> 0"
  shows "reply (submitRsvp status_of na db tok pa) = Reply 200 (JObj [(''success'', JBool True)])
     \<and> getInvite (store (submitRsvp status_of na db tok pa)) tok =
         Some (i\<lparr>rsvp_status := status_of pa, rsvp_data := Some pa, rsvp_at := Some na\<rparr>)
     \<and> reply (submitRsvp status_of nb (store (submitRsvp status_of na db tok pa)) tok pb) =
         Reply 200 (JObj [(''success'', JBool True)])
     \<and> getInvite (store (submitRsvp status_of nb (store (submitRsvp status_of na db tok pa)) tok pb))
           tok =
         Some (i\<lparr>rsvp_status := status_of pb, rsvp_data := Some pb, rsvp_at := Some nb\<rparr>)
     \<and> store (submitRsvp status_of nb (store (submitRsvp status_of na db tok pa)) tok pb) =
         store (submitRsvp status_of nb db tok pb)"
proof -
  have t: "token i = tok" using assms(1) by (rule getInvite_token)
  let ?f = "\<lambda>n p r. if token r = tok
              then r\<lparr>rsvp_status := status_of p, rsvp_data := Some p, rsvp_at := Some n\<rparr>
              else r"
  have once: "submitRsvp status_of n d tok p =
                \<lparr>reply = Reply 200 (JObj [(''success'', JBool True)]),
                 store = map (?f n p) d, invoked = []\<rparr>"
    if "getInvite d tok = Some j" and "puzzle_solved j \<noteq> 0" for n d p j
  proof -
    have "token j = tok" using that(1) by (rule getInvite_token)
    with that show ?thesis by (simp add: submitRsvp_def upsertRsvp_def)
  qed
  have first: "submitRsvp status_of na db tok pa =
                \<lparr>reply = Reply 200 (JObj [(''success'', JBool True)]),
                 store = map (?f na pa) db, invoked = []\<rparr>"
    using assms by (rule once)
  have alone: "submitRsvp status_of nb db tok pb =
                \<lparr>reply = Reply 200 (JObj [(''success'', JBool True)]),
                 store = map (?f nb pb) db, invoked = []\<rparr>"
    using assms by (rule once)
  have g1: "getInvite (map (?f na pa) db) tok =
              Some (i\<lparr>rsvp_status := status_of pa, rsvp_data := Some pa, rsvp_at := Some na\<rparr>)"
    using assms(1) t by (simp add: getInvite_upsert_map)
  have second: "submitRsvp status_of nb (map (?f na pa) db) tok pb =
                \<lparr>reply = Reply 200 (JObj [(''success'', JBool True)]),
                 store = map (?f nb pb) (map (?f na pa) db), invoked = []\<rparr>"
    using g1 by (rule once) (simp add: assms(2))
  have comp: "map (?f nb pb) (map (?f na pa) db) = map (?f nb pb) db"
    by (induction db) auto
  have g2: "getInvite (map (?f nb pb) db) tok =
              Some (i\<lparr>rsvp_status := status_of pb, rsvp_data := Some pb, rsvp_at := Some nb\<rparr>)"
    using assms(1) t by (simp add: getInvite_upsert_map)
  show ?thesis
    unfolding first result.simps second comp alone using g1 g2 by simp
qed

theorem submitRsvp_overwrites_witness:
  "getInvite [invite_T1_solved] ''T1'' = Some invite_T1_solved
   \<and> puzzle_solved invite_T1_solved \<noteq> 0
   \<and> getInvite
        (store (submitRsvp status_by_attending 9
           (store (submitRsvp status_by_attending 8 [invite_T1_solved] ''T1''
              (JObj [(''attending'', JStr ''Yes''), (''dietary'', JStr ''vegan'')])))
           ''T1'' (JObj [(''attending'', JStr ''No'')]))) ''T1'' =
       Some (invite_T1_solved\<lparr>rsvp_status := Some ''declined'',
               rsvp_data := Some (JObj [(''attending'', JStr ''No'')]), rsvp_at := Some 9\<rparr>)"
proof -
  have a: "getInvite [invite_T1_solved] ''T1'' = Some invite_T1_solved"
    by (simp add: getInvite_def invite_T1_def invite_T1_solved_def)
  have b: "puzzle_solved invite_T1_solved \<noteq> 0"
    by (simp add: invite_T1_solved_def)
  have c: "status_by_attending (JObj [(''attending'', JStr ''No'')]) = Some ''declined''"
    by (simp add: status_by_attending_def)
  from submitRsvp_overwrites
         [OF a b, where status_of = status_by_attending and na = 8 and nb = 9
            and pa = "JObj [(''attending'', JStr ''Yes''), (''dietary'', JStr ''vegan'')]"
            and pb = "JObj [(''attending'', JStr ''No'')]"]
       a b
  show ?thesis unfolding c by blast
qed

section \<open>Reading the state of an invite\<close>

text \<open>
  C6. For a token in the store the state read answers 200 with exactly the four fields
  \<^verbatim>\<open>guest_name\<close>, \<^verbatim>\<open>event_slug\<close>, \<^verbatim>\<open>puzzle_solved\<close> and \<^verbatim>\<open>has_rsvp\<close>, the last being
  whether \<open>rsvp_status\<close> is set, and changes nothing. Two stores whose invites for the token
  differ only in \<open>rsvp_data\<close>, in \<open>rsvp_at\<close> and in which set (or both unset) \<open>rsvp_status\<close>
  they hold get the same response.
\<close>

theorem getInviteState_hides_rsvp:
  assumes "getInvite dba tok = Some i"
    and "getInvite dbb tok = Some (i\<lparr>rsvp_status := s, rsvp_data := d, rsvp_at := a\<rparr>)"
    and "(s = None) = (rsvp_status i = None)"
  shows "getInviteState dba tok =
           \<lparr>reply = Reply 200 (JObj
              [(''guest_name'', JStr (guest_name i)),
               (''event_slug'', JStr (event_slug i)),
               (''puzzle_solved'', JBool (puzzle_solved i \<noteq> 0)),
               (''has_rsvp'', JBool (rsvp_status i \<noteq> None))]),
            store = dba, invoked = []\<rparr>
         \<and> reply (getInviteState dbb tok) = reply (getInviteState dba tok)"
  using assms by (simp add: getInviteState_def)

theorem getInviteState_hides_rsvp_witness:
  "getInvite [invite_T1_solved\<lparr>rsvp_status := Some ''accepted'',
                 rsvp_data := Some (JObj [(''dietary'', JStr ''vegan'')]), rsvp_at := Some 8\<rparr>]
      ''T1'' =
     Some (invite_T1_solved\<lparr>rsvp_status := Some ''accepted'',
                 rsvp_data := Some (JObj [(''dietary'', JStr ''vegan'')]), rsvp_at := Some 8\<rparr>)
   \<and> reply (getInviteState
        [invite_T1_solved\<lparr>rsvp_status := Some ''declined'',
                 rsvp_data := Some (JObj [(''attending'', JStr ''No'')]), rsvp_at := Some 9\<rparr>]
        ''T1'') =
     reply (getInviteState
        [invite_T1_solved\<lparr>rsvp_status := Some ''accepted'',
                 rsvp_data := Some (JObj [(''dietary'', JStr ''vegan'')]), rsvp_at := Some 8\<rparr>]
        ''T1'')
   \<and> reply (getInviteState
        [invite_T1_solved\<lparr>rsvp_status := Some ''accepted'',
                 rsvp_data := Some (JObj [(''dietary'', JStr ''vegan'')]), rsvp_at := Some 8\<rparr>]
        ''T1'') =
     Reply 200 (JObj
        [(''guest_name'', JStr ''Claude & Dario''),
         (''event_slug'', JStr ''dinner-party-march-2026''),
         (''puzzle_solved'', JBool True),
         (''has_rsvp'', JBool True)])"
proof -
  let ?i = "invite_T1_solved\<lparr>rsvp_status := Some ''accepted'',
                 rsvp_data := Some (JObj [(''dietary'', JStr ''vegan'')]), rsvp_at := Some 8\<rparr>"
  let ?j = "invite_T1_solved\<lparr>rsvp_status := Some ''declined'',
                 rsvp_data := Some (JObj [(''attending'', JStr ''No'')]), rsvp_at := Some 9\<rparr>"
  have a: "getInvite [?i] ''T1'' = Some ?i"
    by (simp add: getInvite_def invite_T1_def invite_T1_solved_def)
  have b: "getInvite [?j] ''T1'' =
             Some (?i\<lparr>rsvp_status := Some ''declined'',
                     rsvp_data := Some (JObj [(''attending'', JStr ''No'')]), rsvp_at := Some 9\<rparr>)"
    by (simp add: getInvite_def invite_T1_def invite_T1_solved_def)
  have c: "(Some ''declined'' = None) = (rsvp_status ?i = None)"
    by simp
  have f: "guest_name ?i = ''Claude & Dario'' \<and> event_slug ?i = ''dinner-party-march-2026''
             \<and> (puzzle_solved ?i \<noteq> 0) = True \<and> (rsvp_status ?i \<noteq> None) = True"
    by (simp add: invite_T1_def invite_T1_solved_def)
  from getInviteState_hides_rsvp [OF a b c] a f
  show ?thesis by simp
qed

section \<open>The puzzle gate: a verifier that throws\<close>

text \<open>
  C7, as the handler is written. The call \<^verbatim>\<open>verifier(submission)\<close> stands in no
  \<^verbatim>\<open>try\<close> block: when the verifier throws on a submission for an unsolved invite, the
  exception leaves the handler, which sends no \<^verbatim>\<open>{solved: false}\<close>; the invite is not
  marked solved and the whole store is as before.
\<close>

theorem attemptSolve_verifier_throws:
  assumes "getInvite db tok = Some i" and "event_slug i = slug" and "puzzle_solved i = 0"
    and "reg slug = Callable f" and "f submission = Throws e"
  shows "attemptSolve reg now db slug tok submission =
           \<lparr>reply = Raised e, store = db, invoked = [submission]\<rparr>"
  using assms by (simp add: attemptSolve_def)

theorem attemptSolve_verifier_throws_witness:
  "getInvite [invite_T1] ''T1'' = Some invite_T1
   \<and> event_slug invite_T1 = ''dinner-party-march-2026''
   \<and> puzzle_solved invite_T1 = 0
   \<and> verifiers no_inherited ''dinner-party-march-2026'' = Callable verify
   \<and> verify JNull = Throws TypeError
   \<and> attemptSolve (verifiers no_inherited) 5 [invite_T1] ''dinner-party-march-2026'' ''T1'' JNull =
        \<lparr>reply = Raised TypeError, store = [invite_T1], invoked = [JNull]\<rparr>"
proof -
  have a: "getInvite [invite_T1] ''T1'' = Some invite_T1"
    by (simp add: getInvite_def invite_T1_def)
  have b: "event_slug invite_T1 = ''dinner-party-march-2026''"
    by (simp add: invite_T1_def)
  have c: "puzzle_solved invite_T1 = 0"
    by (simp add: invite_T1_def)
  have d: "verifiers no_inherited ''dinner-party-march-2026'' = Callable verify"
    by (simp add: verifiers_def)
  have e: "verify JNull = Throws TypeError"
    by (simp add: verify_def)
  from attemptSolve_verifier_throws
         [where reg = "verifiers no_inherited" and f = verify and now = 5
            and slug = "''dinner-party-march-2026''", OF a b c d e]
       a b c d e
  show ?thesis by simp
qed

text \<open>
  The claim as first stated fails on the example verifier itself: a submission whose
  \<^verbatim>\<open>answer\<close> is the number 42 makes \<^verbatim>\<open>trim\<close> a call of \<^verbatim>\<open>undefined\<close>, and the handler
  throws instead of answering \<^verbatim>\<open>{solved: false}\<close>.
\<close>

theorem attemptSolve_throwing_verifier_counterexample:
  "reply (attemptSolve (verifiers no_inherited) 5 [invite_T1] ''dinner-party-march-2026'' ''T1''
            (JObj [(''answer'', JNum 42)])) = Raised TypeError
   \<and> reply (attemptSolve (verifiers no_inherited) 5 [invite_T1] ''dinner-party-march-2026'' ''T1''
            (JObj [(''answer'', JNum 42)])) \<noteq> Reply 200 (JObj [(''solved'', JBool False)])"
  by (simp add: attemptSolve_def getInvite_def invite_T1_def verifiers_def verify_def)

section \<open>The puzzle gate: an event without verifier\<close>

text \<open>
  C8, as the handler is written. When the registry read for the slug yields nothing, a
  puzzle attempt on an unsolved invite bound to that event is answered 404 with
  \<^verbatim>\<open>{error: "Unknown event"}\<close>, leaves the store as it was and calls no verifier. The
  status is the one of the invalid-invite response, the body is not.
\<close>

theorem attemptSolve_unknown_event:
  assumes "getInvite db tok = Some i" and "event_slug i = slug" and "puzzle_solved i = 0"
    and "reg slug = NoEntry"
  shows "attemptSolve reg now db slug tok submission =
           \<lparr>reply = Reply 404 (JObj [(''error'', JStr ''Unknown event'')]), store = db,
            invoked = []\<rparr>
         \<and> invalid_invite = Reply 404 (JObj [(''error'', JStr ''Invalid invite'')])
         \<and> reply (attemptSolve reg now db slug tok submission) \<noteq> invalid_invite"
  using assms by (simp add: attemptSolve_def unknown_event_def invalid_invite_def)

theorem attemptSolve_unknown_event_witness:
  "getInvite [invite_T1, invite_T2] ''T2'' = Some invite_T2
   \<and> event_slug invite_T2 = ''scavenger-hunt-july-2026''
   \<and> puzzle_solved invite_T2 = 0
   \<and> verifiers no_inherited ''scavenger-hunt-july-2026'' = NoEntry
   \<and> attemptSolve (verifiers no_inherited) 5 [invite_T1, invite_T2] ''scavenger-hunt-july-2026''
        ''T2'' (JObj [(''answer'', JStr ''x'')]) =
        \<lparr>reply = Reply 404 (JObj [(''error'', JStr ''Unknown event'')]),
         store = [invite_T1, invite_T2], invoked = []\<rparr>"
proof -
  have a: "getInvite [invite_T1, invite_T2] ''T2'' = Some invite_T2"
    by (simp add: getInvite_def invite_T1_def invite_T2_def)
  have b: "event_slug invite_T2 = ''scavenger-hunt-july-2026''"
    by (simp add: invite_T2_def)
  have c: "puzzle_solved invite_T2 = 0"
    by (simp add: invite_T2_def)
  have d: "verifiers no_inherited ''scavenger-hunt-july-2026'' = NoEntry"
    by (simp add: verifiers_def no_inherited_def)
  from attemptSolve_unknown_event
         [where reg = "verifiers no_inherited" and now = 5
            and slug = "''scavenger-hunt-july-2026''"
            and submission = "JObj [(''answer'', JStr ''x'')]", OF a b c d]
       a b c d
  show ?thesis by simp
qed

text \<open>
  The claim as first stated fails: for the invite T2, whose event has no verifier, the
  response differs from the one an unknown token gets.
\<close>

theorem attemptSolve_unknown_event_counterexample:
  "reply (attemptSolve (verifiers no_inherited) 5 [invite_T1, invite_T2]
            ''scavenger-hunt-july-2026'' ''T2'' JNull) =
     Reply 404 (JObj [(''error'', JStr ''Unknown event'')])
   \<and> reply (attemptSolve (verifiers no_inherited) 5 [invite_T1, invite_T2]
            ''scavenger-hunt-july-2026'' ''T0'' JNull) =
     Reply 404 (JObj [(''error'', JStr ''Invalid invite'')])
   \<and> reply (attemptSolve (verifiers no_inherited) 5 [invite_T1, invite_T2]
            ''scavenger-hunt-july-2026'' ''T2'' JNull) \<noteq>
     reply (attemptSolve (verifiers no_inherited) 5 [invite_T1, invite_T2]
            ''scavenger-hunt-july-2026'' ''T0'' JNull)"
  by (simp add: attemptSolve_def getInvite_def invite_T1_def invite_T2_def verifiers_def
        no_inherited_def unknown_event_def invalid_invite_def)

section \<open>What the example verifier accepts\<close>

text \<open>
  C10. \<open>verify\<close> returns \<^verbatim>\<open>true\<close> exactly when the submission has a string \<^verbatim>\<open>answer\<close> that,
  trimmed and lower-cased, is the phrase; whatever it returns is a boolean; and on every
  object whose \<^verbatim>\<open>answer\<close> is absent, \<^verbatim>\<open>null\<close> or \<^verbatim>\<open>undefined\<close>, and on every array,
  it returns \<^verbatim>\<open>false\<close> and does not throw.
\<close>

theorem verify_accepts_exactly:
  "(verify submission = Returns (JBool True)) =
     (\<exists>a. get_prop submission ''answer'' = Returns (JStr a)
          \<and> toLowerCase (trim a) = ''the stars align at midnight'')
   \<and> (\<forall>v. verify submission = Returns v \<longrightarrow> v = JBool True \<or> v = JBool False)
   \<and> (\<forall>kvs. map_of kvs ''answer'' = None \<or> map_of kvs ''answer'' = Some JNull
            \<or> map_of kvs ''answer'' = Some JUndefined
          \<longrightarrow> verify (JObj kvs) = Returns (JBool False))
   \<and> (\<forall>xs. verify (JArr xs) = Returns (JBool False))"
proof (intro conjI allI impI)
  show "(verify submission = Returns (JBool True)) =
     (\<exists>a. get_prop submission ''answer'' = Returns (JStr a)
          \<and> toLowerCase (trim a) = ''the stars align at midnight'')"
    by (auto simp: verify_def split: outcome.splits jsval.splits)
next
  fix v assume "verify submission = Returns v"
  then show "v = JBool True \<or> v = JBool False"
    by (auto simp: verify_def split: outcome.splits jsval.splits)
next
  fix kvs
  assume "map_of kvs ''answer'' = None \<or> map_of kvs ''answer'' = Some JNull
            \<or> map_of kvs ''answer'' = Some JUndefined"
  then show "verify (JObj kvs) = Returns (JBool False)"
    by (auto simp: verify_def)
next
  fix xs show "verify (JArr xs) = Returns (JBool False)"
    by (simp add: verify_def)
qed

theorem verify_accepts_exactly_witness:
  "verify (JObj [(''answer'', JStr ''  The Stars ALIGN at Midnight '')]) = Returns (JBool True)
   \<and> get_prop (JObj [(''answer'', JStr ''  The Stars ALIGN at Midnight '')]) ''answer'' =
       Returns (JStr ''  The Stars ALIGN at Midnight '')
   \<and> toLowerCase (trim ''  The Stars ALIGN at Midnight '') = ''the stars align at midnight''
   \<and> map_of [(''guess'', JStr ''the stars align at midnight'')] ''answer'' = None
   \<and> verify (JObj [(''guess'', JStr ''the stars align at midnight'')]) = Returns (JBool False)
   \<and> map_of [(''answer'', JNull)] ''answer'' = Some JNull
   \<and> verify (JObj [(''answer'', JNull)]) = Returns (JBool False)"
proof -
  have a: "get_prop (JObj [(''answer'', JStr ''  The Stars ALIGN at Midnight '')]) ''answer'' =
       Returns (JStr ''  The Stars ALIGN at Midnight '')"
    by simp
  have b: "toLowerCase (trim ''  The Stars ALIGN at Midnight '') = ''the stars align at midnight''"
    by code_simp
  have c: "map_of [(''guess'', JStr ''the stars align at midnight'')] ''answer'' = None"
    by simp
  have d: "map_of [(''answer'', JNull)] ''answer'' = Some JNull"
    by simp
  note v1 = verify_accepts_exactly
              [where submission = "JObj [(''answer'', JStr ''  The Stars ALIGN at Midnight '')]"]
  from v1 a b
  have w1: "verify (JObj [(''answer'', JStr ''  The Stars ALIGN at Midnight '')]) =
              Returns (JBool True)"
    by blast
  from v1 c
  have w2: "verify (JObj [(''guess'', JStr ''the stars align at midnight'')]) = Returns (JBool False)"
    by blast
  from v1 d
  have w3: "verify (JObj [(''answer'', JNull)]) = Returns (JBool False)"
    by blast
  from a b c d w1 w2 w3 show ?thesis by blast
qed

section \<open>The health check\<close>

lemma toISOString_examples:
  "toISOString 0 = ''1970-01-01T00:00:00.000Z''"
  "toISOString 951868799999 = ''2000-02-29T23:59:59.999Z''"
  "toISOString 4107542400000 = ''2100-03-01T00:00:00.000Z''"
  "toISOString (-1) = ''1969-12-31T23:59:59.999Z''"
  "toISOString 253402300800000 = ''+010000-01-01T00:00:00.000Z''"
  "toISOString (-62198755200000) = ''-000001-01-01T00:00:00.000Z''"
  by code_simp+

text \<open>
  C9. The health handler answers every request with status 200 and the object with
  \<^verbatim>\<open>status\<close> "ok" and \<^verbatim>\<open>timestamp\<close> the ISO-8601 text of the clock reading; at one clock
  reading every request gets the same answer, and the handler has no store to change.
  Among the endpoints the server registers, in production or not, the health check is there
  and every other one sends a file of \<^verbatim>\<open>dist\<close>, the same whatever the clock reads.
\<close>

theorem health_check:
  "health req now =
     Reply 200 (JObj [(''status'', JStr ''ok''), (''timestamp'', JStr (toISOString now))])
   \<and> health req' now = health req now
   \<and> HealthCheck \<in> set (endpoints production)
   \<and> (\<forall>e \<in> set (endpoints production).
         e = HealthCheck \<or> (\<forall>now'. respond dist now' e req = respond dist now e req))"
proof -
  have "e = HealthCheck \<or> (\<forall>now'. respond dist now' e req = respond dist now e req)" for e
    by (cases e) simp_all
  then show ?thesis by (simp add: health_def endpoints_def)
qed

theorem health_check_witness:
  "health \<lparr>req_method = ''GET'', req_path = ''/api/health'', req_body = JObj []\<rparr> 1793712600123 =
     Reply 200 (JObj [(''status'', JStr ''ok''),
                      (''timestamp'', JStr ''2026-11-03T13:30:00.123Z'')])
   \<and> StaticAssets \<in> set (endpoints True)
   \<and> respond (\<lambda>p. if p = ''/logo.svg'' then Some ''<svg/>'' else None) 0 StaticAssets
        \<lparr>req_method = ''GET'', req_path = ''/logo.svg'', req_body = JUndefined\<rparr> =
      respond (\<lambda>p. if p = ''/logo.svg'' then Some ''<svg/>'' else None) 1793712600123 StaticAssets
        \<lparr>req_method = ''GET'', req_path = ''/logo.svg'', req_body = JUndefined\<rparr>"
proof -
  have iso: "toISOString 1793712600123 = ''2026-11-03T13:30:00.123Z''"
    by code_simp
  have mem: "StaticAssets \<in> set (endpoints True)"
    by (simp add: endpoints_def)
  note h = health_check
             [where now = 1793712600123 and production = True
                and dist = "\<lambda>p. if p = ''/logo.svg'' then Some ''<svg/>'' else None"
                and req = "\<lparr>req_method = ''GET'', req_path = ''/logo.svg'', req_body = JUndefined\<rparr>"
                and req' = "\<lparr>req_method = ''GET'', req_path = ''/api/health'', req_body = JObj []\<rparr>"]
  from h have w1: "health \<lparr>req_method = ''GET'', req_path = ''/api/health'', req_body = JObj []\<rparr>
                     1793712600123 =
     Reply 200 (JObj [(''status'', JStr ''ok''),
                      (''timestamp'', JStr ''2026-11-03T13:30:00.123Z'')])"
    unfolding iso by simp
  from h mem have w2: "respond (\<lambda>p. if p = ''/logo.svg'' then Some ''<svg/>'' else None) 0 StaticAssets
        \<lparr>req_method = ''GET'', req_path = ''/logo.svg'', req_body = JUndefined\<rparr> =
      respond (\<lambda>p. if p = ''/logo.svg'' then Some ''<svg/>'' else None) 1793712600123 StaticAssets
        \<lparr>req_method = ''GET'', req_path = ''/logo.svg'', req_body = JUndefined\<rparr>"
    by blast
  from w1 mem w2 show ?thesis by blast
qed

end
